theory Spec2Isabelle
  imports Main "HOL-Library.Multiset" "HOL-Library.Code_Target_Nat"
begin

section \<open>Resilient fetch wrapper (server/services/clickup-system.js, withBackoff)\<close>

text \<open>
  A thrown JavaScript error, reduced to what \<open>withBackoff\<close> reads from it:
  \<open>err?.status\<close> (\<open>None\<close> when the error carries no status, as for a
  network failure of \<open>fetch\<close>) and its message.
\<close>

datatype error = Err (err_status: "int option") (err_message: string)







section \<open>Status endpoint (server/index.js, GET /api/status)\<close>

text \<open>
  \<open>fs.readFileSync(dataPath, "utf8")\<close> either throws (file missing or unreadable)
  or returns the file's text; the file system is the function giving that result for a
  path. The handler answers either with the raw text sent under the JSON content type,
  or with a JSON object built in the \<open>catch\<close> branch, whose \<open>updatedAt\<close> is
  the clock reading \<open>new Date().toISOString()\<close>.
\<close>

type_synonym filesystem = "string \<Rightarrow> error + string"

record fallback_snapshot =
  fb_overall :: string
  fb_updatedAt :: string
  fb_messages :: "string list"

datatype response = SendRaw string | SendJson fallback_snapshot

definition dataPath :: string where
  "dataPath = ''../data/system.json''"

definition apiStatus :: "filesystem \<Rightarrow> string \<Rightarrow> response" where
  "apiStatus fs now =
     (case fs dataPath of
        Inr raw \<Rightarrow> SendRaw raw
      | Inl err \<Rightarrow> SendJson \<lparr>fb_overall = ''ok'', fb_updatedAt = now, fb_messages = []\<rparr>)"

section \<open>JavaScript strings\<close>

text \<open>
  A JavaScript string is a sequence of UTF-16 code units; a code unit is modelled by
  its number. \<open>js\<close> injects an ASCII literal.
\<close>

type_synonym jchar = nat
type_synonym jstring = "jchar list"

definition js :: "string \<Rightarrow> jstring" where
  "js s = map of_char s"

text \<open>
  The code units that \<open>String.prototype.trim\<close> removes and that \<open>\s\<close> matches
  in a regular expression: TAB, LF, VT, FF, CR, space, NBSP, U+1680, U+2000..U+200A,
  U+2028, U+2029, U+202F, U+205F, U+3000 and U+FEFF.
\<close>

definition isWhite :: "jchar \<Rightarrow> bool" where
  "isWhite c = (c = 9 \<or> c = 10 \<or> c = 11 \<or> c = 12 \<or> c = 13 \<or> c = 32 \<or> c = 160 \<or> c = 5760
     \<or> (8192 \<le> c \<and> c \<le> 8202) \<or> c = 8232 \<or> c = 8233 \<or> c = 8239 \<or> c = 8287
     \<or> c = 12288 \<or> c = 65279)"

text \<open>The line terminators, which \<open>.\<close> does not match: LF, CR, U+2028, U+2029.\<close>

definition isLineTerminator :: "jchar \<Rightarrow> bool" where
  "isLineTerminator c = (c = 10 \<or> c = 13 \<or> c = 8232 \<or> c = 8233)"

definition trim :: "jstring \<Rightarrow> jstring" where
  "trim s = rev (dropWhile isWhite (rev (dropWhile isWhite s)))"

text \<open>
  Lower-casing of the letters A..Z, for the two places where the text is ASCII by
  construction or is only compared with ASCII keywords: the keys of a block, which the
  key pattern restricts to ASCII, and the field normalizers. No capital outside ASCII
  lowers to a string of ASCII letters except U+212A (to \<open>k\<close>), and \<open>k\<close>
  occurs in no keyword below but \<open>ok\<close>, the default status; so the normalizers
  agree with \<open>String.prototype.toLowerCase\<close> on every input. Domain tokens are
  arbitrary text: they are lower-cased by the platform's function, a parameter below.
\<close>

definition lowerChar :: "jchar \<Rightarrow> jchar" where
  "lowerChar c = (if 65 \<le> c \<and> c \<le> 90 then c + 32 else c)"

definition toLowerCase :: "jstring \<Rightarrow> jstring" where
  "toLowerCase s = map lowerChar s"

text \<open>
  The functions of the JavaScript platform that the repository calls on arbitrary text
  and that are not part of it: \<open>lowerCase\<close> is
  \<open>String.prototype.toLowerCase\<close>, with its Unicode case tables, and
  \<open>urlHostname\<close> is \<open>new URL(x).hostname\<close>, \<open>None\<close> when the
  constructor throws.
\<close>

record platform =
  lowerCase :: "jstring \<Rightarrow> jstring"
  urlHostname :: "jstring \<Rightarrow> jstring option"


text \<open>
  A platform for text of the Latin-1 range, on which the sample inputs are run: there
  \<open>String.prototype.toLowerCase\<close> adds 32 to the code units of A..Z, of
  U+00C0..U+00D6 and of U+00D8..U+00DE, and changes no other. Its URL constructor
  always throws.
\<close>

definition lowerLatin :: "jchar \<Rightarrow> jchar" where
  "lowerLatin c =
     (if (65 \<le> c \<and> c \<le> 90) \<or> (192 \<le> c \<and> c \<le> 214) \<or> (216 \<le> c \<and> c \<le> 222)
      then c + 32 else c)"

definition latinPlatform :: platform where
  "latinPlatform = \<lparr>lowerCase = map lowerLatin, urlHostname = (\<lambda>x. None)\<rparr>"

text \<open>\<open>.replace(/[,;]+$/, "")\<close>: the trailing run of commas and semicolons goes.\<close>

definition isSep :: "jchar \<Rightarrow> bool" where
  "isSep c = (c = 44 \<or> c = 59)"

definition stripTrailingSeps :: "jstring \<Rightarrow> jstring" where
  "stripTrailingSeps s = rev (dropWhile isSep (rev s))"

definition startsWith :: "jstring \<Rightarrow> jstring \<Rightarrow> bool" where
  "startsWith s p = (take (length p) s = p)"

text \<open>\<open>s || ""\<close> for a value that is a string or undefined.\<close>

definition orEmpty :: "jstring option \<Rightarrow> jstring" where
  "orEmpty v = (case v of None \<Rightarrow> [] | Some s \<Rightarrow> s)"

text \<open>\<open>s.split(",")\<close>, for any one-unit separator: never an empty list.\<close>

fun splitOn :: "jchar \<Rightarrow> jstring \<Rightarrow> jstring list" where
  "splitOn sep [] = [[]]"
| "splitOn sep (c # cs) =
     (if c = sep then [] # splitOn sep cs
      else (case splitOn sep cs of
              [] \<Rightarrow> [[c]]
            | t # ts \<Rightarrow> (c # t) # ts))"

text \<open>
  \<open>s.split(/\r?\n/)\<close>: a line ends at each LF, and a CR standing right before
  that LF belongs to the separator. \<open>acc\<close> holds the current line, reversed.
\<close>

fun splitLinesFrom :: "jstring \<Rightarrow> jstring \<Rightarrow> jstring list" where
  "splitLinesFrom acc [] = [rev acc]"
| "splitLinesFrom acc (c # cs) =
     (if c = 10
      then rev (case acc of [] \<Rightarrow> [] | a # as \<Rightarrow> if a = 13 then as else acc)
             # splitLinesFrom [] cs
      else splitLinesFrom (c # acc) cs)"

definition splitLines :: "jstring \<Rightarrow> jstring list" where
  "splitLines s = splitLinesFrom [] s"

section \<open>The annotation harvester (server/services/clickup-system.js)\<close>

subsection \<open>Content normalizer\<close>

text \<open>
  \<open>s.replace(/&(amp|lt|gt|quot|#39);/g, m => map[m] || m)\<close>: one pass from left to
  right; the text put in place of a match is not scanned again.
\<close>

definition entityTable :: "(jstring \<times> jchar) list" where
  "entityTable = [(js ''&amp;'', 38), (js ''&lt;'', 60), (js ''&gt;'', 62),
                  (js ''&quot;'', 34), (js ''&#39;'', 39)]"

definition entityAt :: "jstring \<Rightarrow> (jstring \<times> jchar) option" where
  "entityAt s = find (\<lambda>(e, r). startsWith s e) entityTable"

function decodeEntities :: "jstring \<Rightarrow> jstring" where
  "decodeEntities [] = []"
| "decodeEntities (c # cs) =
     (case entityAt (c # cs) of
        Some (e, r) \<Rightarrow> r # decodeEntities (drop (length e - 1) cs)
      | None \<Rightarrow> c # decodeEntities cs)"
  by pat_completeness auto
termination
  by (relation "measure length") auto

text \<open>\<open>s.replace(/\\\[/g, "[")\<close> and its twin for \<open>]\<close>: a backslash goes when
  the bracket \<open>b\<close> follows it.\<close>

fun unescapeBracket :: "jchar \<Rightarrow> jstring \<Rightarrow> jstring" where
  "unescapeBracket b (c # d # cs) =
     (if c = 92 \<and> d = b then b # unescapeBracket b cs
      else c # unescapeBracket b (d # cs))"
| "unescapeBracket b cs = cs"

text \<open>The code units of the class U+200B..U+200D, U+FEFF, which the last \<open>replace\<close> deletes.\<close>

definition isZeroWidth :: "jchar \<Rightarrow> bool" where
  "isZeroWidth c = ((8203 \<le> c \<and> c \<le> 8205) \<or> c = 65279)"

definition prepareSystemSource :: "jstring \<Rightarrow> jstring" where
  "prepareSystemSource v =
     filter (\<lambda>c. \<not> isZeroWidth c)
       (unescapeBracket 93 (unescapeBracket 91 (decodeEntities v)))"

text \<open>
  What a pass of the normalizer would still rewrite: an entity of the table somewhere
  in the text, or a backslash right before the bracket \<open>b\<close>.
\<close>

fun hasEntity :: "jstring \<Rightarrow> bool" where
  "hasEntity [] = False"
| "hasEntity (c # cs) = (entityAt (c # cs) \<noteq> None \<or> hasEntity cs)"

fun hasEscaped :: "jchar \<Rightarrow> jstring \<Rightarrow> bool" where
  "hasEscaped b (c # d # cs) = ((c = 92 \<and> d = b) \<or> hasEscaped b (d # cs))"
| "hasEscaped b cs = False"

subsection \<open>Field normalizers\<close>

definition normalizeStatus :: "jstring option \<Rightarrow> jstring" where
  "normalizeStatus s =
     (let v = stripTrailingSeps (toLowerCase (trim (orEmpty s))) in
      if v = js ''warn'' then js ''warning''
      else if v = js ''incident'' then js ''error''
      else if v = js ''degraded'' then js ''warning''
      else if v \<in> set [js ''ok'', js ''warning'', js ''error''] then v
      else js ''ok'')"

definition normalizeSolved :: "jstring option \<Rightarrow> jstring" where
  "normalizeSolved s =
     (let v = stripTrailingSeps (toLowerCase (trim (orEmpty s))) in
      if v \<in> set [js ''yes'', js ''true'', js ''1''] then js ''yes''
      else if v \<in> set [js ''no'', js ''false'', js ''0''] then js ''no''
      else js ''no'')"

definition normalizeDisplay :: "jstring option \<Rightarrow> jstring" where
  "normalizeDisplay s =
     (let v = stripTrailingSeps (toLowerCase (trim (orEmpty s))) in
      if v \<in> set [js ''yes'', js ''true'', js ''1'', js ''on''] then js ''yes''
      else if v \<in> set [js ''no'', js ''false'', js ''0'', js ''off''] then js ''no''
      else [])"

text \<open>\<open>Array.from(new Set(parts))\<close>: the first occurrence of each value, in order.\<close>

fun uniqueFrom :: "jstring list \<Rightarrow> jstring list \<Rightarrow> jstring list" where
  "uniqueFrom seen [] = []"
| "uniqueFrom seen (x # xs) =
     (if x \<in> set seen then uniqueFrom seen xs else x # uniqueFrom (x # seen) xs)"

definition stripWww :: "jstring \<Rightarrow> jstring" where
  "stripWww x = (if startsWith x (js ''www.'') then drop 4 x else x)"

definition parseDomains :: "platform \<Rightarrow> jstring option \<Rightarrow> jstring list" where
  "parseDomains pf v =
     (case v of
        None \<Rightarrow> []
      | Some s \<Rightarrow>
          (let raw = trim s in
           if raw = [] \<or> raw = js ''@'' then []
           else
             (let parts = map stripWww
                            (filter (\<lambda>x. x \<noteq> [])
                               (map (\<lambda>x. lowerCase pf (trim x)) (splitOn 44 raw)))
              in if js ''@'' \<in> set parts then [] else uniqueFrom [] parts)))"

subsection \<open>Block scanner\<close>

text \<open>
  \<open>/\[system\]([\s\S]*?)\[\/system\]/gi\<close> compares without regard to case. Its
  letters are ASCII, and without the \<open>u\<close> flag a code unit outside ASCII never
  matches an ASCII letter, so two units agree when their ASCII capitals agree.
\<close>

definition upperChar :: "jchar \<Rightarrow> jchar" where
  "upperChar c = (if 97 \<le> c \<and> c \<le> 122 then c - 32 else c)"

fun startsWithCI :: "jstring \<Rightarrow> jstring \<Rightarrow> bool" where
  "startsWithCI s [] = True"
| "startsWithCI [] (p # ps) = False"
| "startsWithCI (c # cs) (p # ps) = (upperChar c = upperChar p \<and> startsWithCI cs ps)"

text \<open>
  The leftmost occurrence of \<open>pat\<close> in \<open>s\<close>: the text before it and the text
  after it.
\<close>

fun findCI :: "jstring \<Rightarrow> jstring \<Rightarrow> (jstring \<times> jstring) option" where
  "findCI pat [] = (if pat = [] then Some ([], []) else None)"
| "findCI pat (c # cs) =
     (if startsWithCI (c # cs) pat then Some ([], drop (length pat) (c # cs))
      else (case findCI pat cs of
              None \<Rightarrow> None
            | Some (before, after) \<Rightarrow> Some (c # before, after)))"

lemma findCI_length:
  "findCI pat s = Some (b, a) \<Longrightarrow> length a + length pat \<le> length s"
proof (induction s arbitrary: b)
  case Nil
  then show ?case by (simp split: if_splits)
next
  case (Cons c cs)
  show ?case
  proof (cases "startsWithCI (c # cs) pat")
    case True
    have "length pat \<le> length s'" if "startsWithCI s' pat" for s'
      using that by (induction s' pat rule: startsWithCI.induct) auto
    from this[OF True] Cons.prems True show ?thesis by auto
  next
    case False
    with Cons.prems obtain b' where "findCI pat cs = Some (b', a)"
      by (auto split: option.splits)
    from Cons.IH[OF this] show ?thesis by simp
  qed
qed

text \<open>
  The \<open>while ((m = re.exec(plain)) !== null)\<close> loop: the interiors \<open>m[1]\<close> of
  the successive matches. The lazy \<open>[\s\S]*?\<close> ends a block at the first closing
  tag after its opening tag; an opening tag with no closing tag after it ends the scan.
\<close>

function systemBlocks :: "jstring \<Rightarrow> jstring list" where
  "systemBlocks s =
     (case findCI (js ''[system]'') s of
        None \<Rightarrow> []
      | Some (before, rest) \<Rightarrow>
          (case findCI (js ''[/system]'') rest of
             None \<Rightarrow> []
           | Some (inner, rest') \<Rightarrow> inner # systemBlocks rest'))"
  by pat_completeness auto
termination
proof (relation "measure length")
  fix s x2 x y x2a xa ya
  assume "findCI (js ''[system]'') s = Some x2" "(x, y) = x2"
    "findCI (js ''[/system]'') y = Some x2a" "(xa, ya) = x2a"
  then have "length y + length (js ''[system]'') \<le> length s"
    and "length ya + length (js ''[/system]'') \<le> length y"
    using findCI_length by metis+
  then show "(ya, s) \<in> measure length" by (simp add: js_def)
qed simp

declare systemBlocks.simps [simp del]

subsection \<open>Line parser\<close>

text \<open>
  \<open>obj\<close> starts as \<open>{}\<close> and is written at keys read from the text; it is the
  map from the keys written to their values. The fields read afterwards (name, status,
  display, solved, domain, message) are not properties of \<open>Object.prototype\<close>, so
  a key never written reads as undefined, \<open>None\<close>. (JavaScript ignores a string
  written at the key \<open>__proto__\<close>; the map keeps it there, where nothing reads
  it.)
\<close>

record parse_state =
  obj :: "jstring \<rightharpoonup> jstring"
  currentKey :: "jstring option"

definition isKeyChar :: "jchar \<Rightarrow> bool" where
  "isKeyChar c = ((65 \<le> c \<and> c \<le> 90) \<or> (97 \<le> c \<and> c \<le> 122) \<or> (48 \<le> c \<and> c \<le> 57)
                  \<or> c = 95 \<or> c = 46 \<or> c = 45)"

text \<open>
  \<open>lineTrimmed.match(/^([A-Za-z0-9_.-]+)\s*[:=]\s*(.*)$/)\<close>: the groups 1 and 2.
  The key is the longest run of key characters, since what follows it is white space
  or the separator; the white space around the separator is taken whole; and the value
  must reach the end of the line without a line terminator, which \<open>.\<close> refuses.
\<close>

definition matchKeyValue :: "jstring \<Rightarrow> (jstring \<times> jstring) option" where
  "matchKeyValue l =
     (let k = takeWhile isKeyChar l in
      if k = [] then None
      else (case dropWhile isWhite (dropWhile isKeyChar l) of
              [] \<Rightarrow> None
            | c # r \<Rightarrow>
                if c = 58 \<or> c = 61
                then (let v = dropWhile isWhite r in
                      if list_ex isLineTerminator v then None else Some (k, v))
                else None))"

definition messageKey :: jstring where
  "messageKey = js ''message''"

definition stepLine :: "parse_state \<Rightarrow> jstring \<Rightarrow> parse_state" where
  "stepLine st rawLine =
     (let lineTrimmed = trim rawLine in
      if lineTrimmed = [] then
        (if currentKey st = Some messageKey
         then st\<lparr>obj := (obj st)(messageKey \<mapsto> orEmpty (obj st messageKey) @ [10])\<rparr>
         else st)
      else
        (case matchKeyValue lineTrimmed of
           Some (k, v) \<Rightarrow>
             (let key = toLowerCase k;
                  val = trim (stripTrailingSeps (trim v))
              in if key = messageKey
                 then st\<lparr>obj := (obj st)(messageKey \<mapsto> orEmpty (obj st messageKey) @ val),
                         currentKey := Some messageKey\<rparr>
                 else st\<lparr>obj := (obj st)(key \<mapsto> val), currentKey := Some key\<rparr>)
         | None \<Rightarrow>
             (if currentKey st = Some messageKey
              then (let m = orEmpty (obj st messageKey);
                        m' = (if m \<noteq> [] \<and> last m \<noteq> 10 then m @ [10] else m)
                    in st\<lparr>obj := (obj st)(messageKey \<mapsto> m' @ rawLine)\<rparr>)
              else st)))"

definition parseLines :: "jstring \<Rightarrow> parse_state" where
  "parseLines innerRaw =
     foldl stepLine \<lparr>obj = Map.empty, currentKey = None\<rparr> (splitLines innerRaw)"

subsection \<open>Entries\<close>

record entry =
  name :: jstring
  status :: jstring
  display :: jstring
  domains :: "jstring list"
  message :: jstring

text \<open>\<open>obj.name || "System message"\<close>: the default also replaces an empty name.\<close>

definition orDefault :: "jstring option \<Rightarrow> jstring \<Rightarrow> jstring" where
  "orDefault v d = (if orEmpty v = [] then d else orEmpty v)"

text \<open>
  The visibility gate and the \<open>results.push\<close> after it; \<open>None\<close> is the
  \<open>continue\<close> that drops the block.
\<close>

definition emitEntry :: "platform \<Rightarrow> (jstring \<rightharpoonup> jstring) \<Rightarrow> entry option" where
  "emitEntry pf ob =
     (let displayNorm = normalizeDisplay (ob (js ''display''));
          e = \<lparr>name = orDefault (ob (js ''name'')) (js ''System message''),
               status = normalizeStatus (ob (js ''status'')),
               display = (if displayNorm = [] then js ''yes'' else displayNorm),
               domains = parseDomains pf (ob (js ''domain'')),
               message = orEmpty (ob messageKey)\<rparr>
      in if displayNorm \<noteq> []
         then (if displayNorm \<noteq> js ''yes'' then None else Some e)
         else (if normalizeSolved (ob (js ''solved'')) \<noteq> js ''no'' then None else Some e))"

definition processBlock :: "platform \<Rightarrow> jstring \<Rightarrow> entry option" where
  "processBlock pf innerRaw =
     (if trim innerRaw = [] then None else emitEntry pf (obj (parseLines innerRaw)))"

definition extractAllSystemEntries :: "platform \<Rightarrow> jstring \<Rightarrow> entry list" where
  "extractAllSystemEntries pf body =
     List.map_filter (processBlock pf) (systemBlocks (prepareSystemSource body))"

subsection \<open>Aggregation\<close>

text \<open>
  The remote document store as one run sees it: the documents \<open>listAllDocs\<close>
  returns, the page metadata \<open>listPagesMeta\<close> returns for a document id (empty
  when the listing failed), and the text \<open>fetchPageBody\<close> returns for a document
  id and a page id (empty when no format gave a body). \<open>date_updated\<close> is the
  JSON number of the page's last update, in milliseconds, when the page has one.
\<close>

record doc =
  doc_id :: jstring
  doc_name :: jstring

record page =
  page_id :: jstring
  page_name :: jstring
  date_updated :: "int option"

record remote =
  listAllDocs :: "doc list"
  listPagesMeta :: "jstring \<Rightarrow> page list"
  fetchPageBody :: "jstring \<Rightarrow> jstring \<Rightarrow> jstring"

text \<open>
  A harvested message: the entry and where it came from. \<open>updated\<close> stands for
  the ISO string \<open>new Date(Number(date_updated)).toISOString()\<close> by the time
  value that \<open>Date.parse\<close> reads back from it; it is null, \<open>None\<close>, when
  \<open>date_updated\<close> is missing or zero (both falsy).
\<close>

record harvested = entry +
  src_doc_id :: jstring
  src_doc_name :: jstring
  src_page_id :: jstring
  src_page_name :: jstring
  updated :: "int option"

definition updatedOf :: "page \<Rightarrow> int option" where
  "updatedOf p = (case date_updated p of
                    None \<Rightarrow> None
                  | Some t \<Rightarrow> if t = 0 then None else Some t)"

definition enrich :: "doc \<Rightarrow> page \<Rightarrow> entry \<Rightarrow> harvested" where
  "enrich d p f = entry.extend f
     (harvested.fields (doc_id d) (doc_name d) (page_id p) (page_name p) (updatedOf p))"

text \<open>\<open>(Number(p?.date_updated) || 0) >= cutoffMs\<close>, applied when \<open>cutoffMs\<close>
  is not zero.\<close>

definition recentPages :: "int \<Rightarrow> remote \<Rightarrow> doc \<Rightarrow> page list" where
  "recentPages cutoffMs w d =
     (let pages = listPagesMeta w (doc_id d) in
      if cutoffMs \<noteq> 0
      then filter (\<lambda>p. cutoffMs \<le> (case date_updated p of None \<Rightarrow> 0 | Some t \<Rightarrow> t)) pages
      else pages)"

text \<open>
  The two nested loops that fill \<open>messages\<close>. \<open>mapLimit\<close> keeps the order
  of the pages, so the bodies are read in page order; a page with an empty body is
  skipped.
\<close>

definition pageMessages :: "platform \<Rightarrow> remote \<Rightarrow> doc \<Rightarrow> page \<Rightarrow> harvested list" where
  "pageMessages pf w d p =
     (let body = fetchPageBody w (doc_id d) (page_id p) in
      if body = [] then [] else map (enrich d p) (extractAllSystemEntries pf body))"

definition collectMessages :: "platform \<Rightarrow> int \<Rightarrow> remote \<Rightarrow> harvested list" where
  "collectMessages pf cutoffMs w =
     concat (map (\<lambda>d. concat (map (pageMessages pf w d) (recentPages cutoffMs w d)))
                 (listAllDocs w))"

text \<open>\<open>sev[a.status] ?? 9\<close> with \<open>sev = { error: 0, warning: 1, ok: 2 }\<close>.\<close>

definition sev :: "jstring \<Rightarrow> int" where
  "sev st = (if st = js ''error'' then 0
             else if st = js ''warning'' then 1
             else if st = js ''ok'' then 2
             else 9)"

text \<open>\<open>Date.parse(m.updated || "") || 0\<close>.\<close>

definition timeKey :: "harvested \<Rightarrow> int" where
  "timeKey m = (case updated m of None \<Rightarrow> 0 | Some t \<Rightarrow> t)"

definition compareMessages :: "harvested \<Rightarrow> harvested \<Rightarrow> int" where
  "compareMessages a b =
     (let sa = sev (status a); sb = sev (status b) in
      if sa \<noteq> sb then sa - sb else timeKey b - timeKey a)"

text \<open>
  \<open>messages.sort(compare)\<close>. \<open>Array.prototype.sort\<close> is stable, and this
  comparator orders by a key, so the result is the stable arrangement by that key; it
  is computed here by insertion from the right, which puts an element before the
  elements it does not exceed.
\<close>

fun insertMessage :: "harvested \<Rightarrow> harvested list \<Rightarrow> harvested list" where
  "insertMessage x [] = [x]"
| "insertMessage x (y # ys) =
     (if compareMessages x y \<le> 0 then x # y # ys else y # insertMessage x ys)"

definition sortMessages :: "harvested list \<Rightarrow> harvested list" where
  "sortMessages ms = foldr insertMessage ms []"

definition overallOf :: "harvested list \<Rightarrow> jstring" where
  "overallOf ms =
     (if list_ex (\<lambda>m. status m = js ''error'') ms then js ''error''
      else if list_ex (\<lambda>m. status m = js ''warning'') ms then js ''warn''
      else js ''ok'')"

record snapshot =
  overall :: jstring
  messages :: "harvested list"
  updatedAt :: jstring

text \<open>\<open>cutoffMs\<close> is the module's constant; \<open>now\<close> is the clock reading
  \<open>new Date().toISOString()\<close>.\<close>

definition harvestSystemMessagesFromDocs ::
  "platform \<Rightarrow> int \<Rightarrow> jstring \<Rightarrow> remote \<Rightarrow> snapshot" where
  "harvestSystemMessagesFromDocs pf cutoffMs now w =
     (let sorted = sortMessages (collectMessages pf cutoffMs w) in
      \<lparr>overall = overallOf sorted, messages = sorted, updatedAt = now\<rparr>)"

text \<open>The order the comparator induces: \<open>a\<close> may stand before \<open>b\<close>.\<close>

definition precedes :: "harvested \<Rightarrow> harvested \<Rightarrow> bool" where
  "precedes a b = (compareMessages a b \<le> 0)"

subsection \<open>A sample run\<close>

text \<open>
  One document of five pages, each holding one block named after its page: an ok
  entry on a page without timestamp, an incident updated at 1000, a warning updated at
  2000, and two ok entries updated at 2500 and at 3000.
\<close>

definition exampleBody :: "jstring \<Rightarrow> jstring \<Rightarrow> jstring" where
  "exampleBody nm st =
     js ''[system]'' @ [10] @ js ''name: '' @ nm @ [10] @ js ''status: '' @ st @ [10]
       @ js ''[/system]''"

definition examplePages :: "page list" where
  "examplePages =
     [\<lparr>page_id = js ''p1'', page_name = js ''One'', date_updated = None\<rparr>,
      \<lparr>page_id = js ''p2'', page_name = js ''Two'', date_updated = Some 1000\<rparr>,
      \<lparr>page_id = js ''p3'', page_name = js ''Three'', date_updated = Some 2000\<rparr>,
      \<lparr>page_id = js ''p4'', page_name = js ''Four'', date_updated = Some 2500\<rparr>,
      \<lparr>page_id = js ''p5'', page_name = js ''Five'', date_updated = Some 3000\<rparr>]"

definition exampleRemote :: remote where
  "exampleRemote =
     \<lparr>listAllDocs = [\<lparr>doc_id = js ''d1'', doc_name = js ''Status''\<rparr>],
      listPagesMeta = (\<lambda>d. examplePages),
      fetchPageBody = (\<lambda>d p. if p = js ''p2'' then exampleBody p (js ''incident'')
                               else if p = js ''p3'' then exampleBody p (js ''warn'')
                               else exampleBody p (js ''ok''))\<rparr>"



text \<open>
  A third store: one document of two pages with an ok block each, the first page
  stamped 5 milliseconds before the epoch, the second without timestamp.
\<close>

definition earlyRemote :: remote where
  "earlyRemote =
     \<lparr>listAllDocs = [\<lparr>doc_id = js ''d1'', doc_name = js ''Status''\<rparr>],
      listPagesMeta = (\<lambda>d. [\<lparr>page_id = js ''q1'', page_name = js ''Early'', date_updated = Some (- 5)\<rparr>,
                             \<lparr>page_id = js ''q2'', page_name = js ''Plain'', date_updated = None\<rparr>]),
      fetchPageBody = (\<lambda>d p. exampleBody p (js ''ok''))\<rparr>"

text \<open>
  The inclusion rule in the specification's words, for comparison with
  \<open>emitEntry\<close>: the display field is present and normalizes to "yes", or it is
  absent and the solved field normalizes to "no".
\<close>

definition specVisible :: "(jstring \<rightharpoonup> jstring) \<Rightarrow> bool" where
  "specVisible ob =
     ((ob (js ''display'') \<noteq> None \<and> normalizeDisplay (ob (js ''display'')) = js ''yes'')
      \<or> (ob (js ''display'') = None \<and> normalizeSolved (ob (js ''solved'')) = js ''no''))"

section \<open>The harvest script (src/unnamed/part_000, lines 335 to 814)\<close>

text \<open>
  A second harvester of the repository, with the same block syntax. It differs from
  the service in its normalizers, in accepting bracketed lines \<open>[key: value]\<close>,
  in requiring a name, and in what it does to the domain tokens and to the message.
\<close>

subsection \<open>Normalizers of the script\<close>

text \<open>\<open>prepareSource\<close>: entities and escaped brackets only.\<close>

definition prepareSource :: "jstring \<Rightarrow> jstring" where
  "prepareSource v = unescapeBracket 93 (unescapeBracket 91 (decodeEntities v))"

definition normalizeStatus_script :: "jstring option \<Rightarrow> jstring" where
  "normalizeStatus_script s =
     (let v = stripTrailingSeps (toLowerCase (trim (orEmpty s))) in
      if v = js ''warn'' then js ''warning''
      else if v = js ''incident'' then js ''error''
      else if v = js ''degraded'' then js ''warning''
      else if v = js ''success'' then js ''ok''
      else if v \<in> set [js ''ok'', js ''warning'', js ''error''] then v
      else js ''ok'')"

definition normalizeDisplay_script :: "jstring option \<Rightarrow> jstring" where
  "normalizeDisplay_script s =
     (let v = stripTrailingSeps (toLowerCase (trim (orEmpty s))) in
      if v \<in> set [js ''no'', js ''false'', js ''0'', js ''off''] then js ''no''
      else js ''yes'')"

subsection \<open>Host tokens\<close>

text \<open>
  \<open>/\[([^\]]+)\]\(([^)]+)\)/\<close> at the head of \<open>s\<close>: an opening bracket, the
  longest run without a closing bracket (not empty), \<open>](\<close>, the longest run
  without a closing parenthesis (not empty), and the closing parenthesis. The result is
  the two groups and the text after the match.
\<close>

definition mdLinkAt :: "jstring \<Rightarrow> (jstring \<times> jstring \<times> jstring) option" where
  "mdLinkAt s =
     (case s of
        [] \<Rightarrow> None
      | c # r1 \<Rightarrow>
          if c \<noteq> 91 then None
          else
            (let text = takeWhile (\<lambda>x. x \<noteq> 93) r1 in
             if text = [] then None
             else
               (case dropWhile (\<lambda>x. x \<noteq> 93) r1 of
                  [] \<Rightarrow> None
                | b # r2 \<Rightarrow>
                    (case r2 of
                       [] \<Rightarrow> None
                     | q # r3 \<Rightarrow>
                         if q \<noteq> 40 then None
                         else
                           (let url = takeWhile (\<lambda>x. x \<noteq> 41) r3 in
                            if url = [] then None
                            else
                              (case dropWhile (\<lambda>x. x \<noteq> 41) r3 of
                                 [] \<Rightarrow> None
                               | e # rest \<Rightarrow> Some (text, url, rest)))))))"

lemma mdLinkAt_length:
  "mdLinkAt s = Some (text, url, rest) \<Longrightarrow> length rest < length s"
proof -
  assume a: "mdLinkAt s = Some (text, url, rest)"
  have dw: "length (dropWhile P xs) \<le> length xs" for P and xs :: jstring
    by (simp add: length_dropWhile_le)
  from a obtain c r1 b r2 q r3 e where
    "s = c # r1" "dropWhile (\<lambda>x. x \<noteq> 93) r1 = b # r2" "r2 = q # r3"
    "dropWhile (\<lambda>x. x \<noteq> 41) r3 = e # rest"
    by (auto simp: mdLinkAt_def Let_def split: list.splits if_splits)
  with dw[of "\<lambda>x. x \<noteq> 93" r1] dw[of "\<lambda>x. x \<noteq> 41" r3] show ?thesis by simp
qed

text \<open>The callback: the trimmed link text, or the trimmed address when that is empty.\<close>

definition linkText :: "jstring \<Rightarrow> jstring \<Rightarrow> jstring" where
  "linkText text url = (if trim text \<noteq> [] then trim text else trim url)"

function replaceLinks :: "jstring \<Rightarrow> jstring" where
  "replaceLinks [] = []"
| "replaceLinks (c # cs) =
     (case mdLinkAt (c # cs) of
        Some (text, url, rest) \<Rightarrow> linkText text url @ replaceLinks rest
      | None \<Rightarrow> c # replaceLinks cs)"
  by pat_completeness auto
termination
proof (relation "measure length")
  fix c cs x2 x y xa ya
  assume "mdLinkAt (c # cs) = Some x2" "(x, y) = x2" "(xa, ya) = y"
  then have "mdLinkAt (c # cs) = Some (x, xa, ya)" by simp
  from mdLinkAt_length[OF this] show "(ya, c # cs) \<in> measure length" by simp
qed simp_all

text \<open>\<open>/^https?:\/\//i\<close>, as a test and as a prefix to delete.\<close>

definition hasHttpPrefix :: "jstring \<Rightarrow> bool" where
  "hasHttpPrefix x = (startsWithCI x (js ''https://'') \<or> startsWithCI x (js ''http://''))"

definition stripProtocol :: "jstring \<Rightarrow> jstring" where
  "stripProtocol x =
     (if startsWithCI x (js ''https://'') then drop 8 x
      else if startsWithCI x (js ''http://'') then drop 7 x
      else x)"

text \<open>
  \<open>normalizeHostToken\<close>, up to its \<open>toLowerCase\<close>: the link text, the host
  name the platform reads from an http(s) address (the \<open>catch\<close> ignores a
  constructor that throws), without protocol, and cut at the first slash, question mark
  and hash sign.
\<close>

definition hostPart :: "platform \<Rightarrow> jstring \<Rightarrow> jstring" where
  "hostPart pf input =
     (let x1 = replaceLinks (trim input);
          x2 = (if hasHttpPrefix x1
                then (case urlHostname pf x1 of Some h \<Rightarrow> h | None \<Rightarrow> x1)
                else x1);
          x3 = stripProtocol x2
      in takeWhile (\<lambda>c. c \<noteq> 35) (takeWhile (\<lambda>c. c \<noteq> 63) (takeWhile (\<lambda>c. c \<noteq> 47) x3)))"

text \<open>The rest of \<open>normalizeHostToken\<close>: lower-case, trim, and drop \<open>www.\<close>.\<close>

definition normalizeHostToken :: "platform \<Rightarrow> jstring \<Rightarrow> jstring" where
  "normalizeHostToken pf input = stripWww (trim (lowerCase pf (hostPart pf input)))"

definition parseDomains_script :: "platform \<Rightarrow> jstring option \<Rightarrow> jstring list" where
  "parseDomains_script pf v =
     (case v of
        None \<Rightarrow> []
      | Some s \<Rightarrow>
          (let raw = trim s in
           if raw = [] then []
           else if raw = js ''@'' then []
           else
             (let parts = filter (\<lambda>x. x \<noteq> [])
                            (map (normalizeHostToken pf) (splitOn 44 raw))
              in if js ''@'' \<in> set parts then [] else uniqueFrom [] parts)))"

subsection \<open>Line parser of the script\<close>

text \<open>
  \<open>/^\[.*\]$/.test(l)\<close>, after which \<open>l.slice(1, -1).trim()\<close> replaces the
  line.
\<close>

definition isBracketed :: "jstring \<Rightarrow> bool" where
  "isBracketed l =
     (2 \<le> length l \<and> hd l = 91 \<and> last l = 93 \<and> \<not> list_ex isLineTerminator (butlast (tl l)))"

definition unbracket :: "jstring \<Rightarrow> jstring" where
  "unbracket l = (if isBracketed l then trim (butlast (tl l)) else l)"

definition stepLine_script :: "parse_state \<Rightarrow> jstring \<Rightarrow> parse_state" where
  "stepLine_script st rawLine =
     (let lineTrim = trim rawLine in
      if lineTrim = [] then
        (if currentKey st = Some messageKey
         then st\<lparr>obj := (obj st)(messageKey \<mapsto> orEmpty (obj st messageKey) @ [10])\<rparr>
         else st)
      else
        (case matchKeyValue (unbracket lineTrim) of
           Some (k, valRaw) \<Rightarrow>
             (let key = toLowerCase k
              in if key = messageKey
                 then st\<lparr>obj := (obj st)(messageKey \<mapsto> orEmpty (obj st messageKey) @ valRaw),
                         currentKey := Some messageKey\<rparr>
                 else st\<lparr>obj := (obj st)(key \<mapsto> trim valRaw), currentKey := Some key\<rparr>)
         | None \<Rightarrow>
             (if currentKey st = Some messageKey
              then (let m = orEmpty (obj st messageKey);
                        m' = (if m \<noteq> [] \<and> last m \<noteq> 10 then m @ [10] else m)
                    in st\<lparr>obj := (obj st)(messageKey \<mapsto> m' @ rawLine)\<rparr>)
              else st)))"

definition parseLines_script :: "jstring \<Rightarrow> parse_state" where
  "parseLines_script inner =
     foldl stepLine_script \<lparr>obj = Map.empty, currentKey = None\<rparr> (splitLines inner)"

definition emitEntry_script :: "platform \<Rightarrow> (jstring \<rightharpoonup> jstring) \<Rightarrow> entry option" where
  "emitEntry_script pf ob =
     (if normalizeDisplay_script (ob (js ''display'')) \<noteq> js ''yes'' then None
      else
        (let nm = trim (orEmpty (ob (js ''name''))) in
         if nm = [] then None
         else Some \<lparr>name = nm,
                     status = normalizeStatus_script (ob (js ''status'')),
                     display = js ''yes'',
                     domains = parseDomains_script pf (ob (js ''domain'')),
                     message = trim (orEmpty (ob messageKey))\<rparr>))"

text \<open>The script splits the trimmed interior, not the raw one.\<close>

definition processBlock_script :: "platform \<Rightarrow> jstring \<Rightarrow> entry option" where
  "processBlock_script pf innerRaw =
     (let inner = trim innerRaw in
      if inner = [] then None
      else emitEntry_script pf (obj (parseLines_script inner)))"

definition extractAllSystemEntries_script :: "platform \<Rightarrow> jstring \<Rightarrow> entry list" where
  "extractAllSystemEntries_script pf body =
     List.map_filter (processBlock_script pf) (systemBlocks (prepareSource body))"

section \<open>The legacy harvester (src/unnamed/part_001)\<close>

text \<open>
  An earlier version of the service, which knows the solved field only and removes
  repeated blocks within one page body.
\<close>




record legacy_entry =
  l_name :: jstring
  l_status :: jstring
  l_solved :: jstring
  l_message :: jstring






subsection \<open>Aggregation of the legacy harvester\<close>


record legacy_harvested = legacy_entry +
  lh_doc_id :: jstring
  lh_page_id :: jstring
  lh_page_name :: jstring
  lh_updated :: "int option"

















section \<open>Properties of the fetch wrapper\<close>





section \<open>Properties of the status endpoint\<close>

text \<open>
  C9. When reading the snapshot file fails (missing or unreadable), the status
  endpoint answers with the fallback snapshot whose overall status is "ok" and whose
  message list is empty; otherwise it sends the file's text unchanged.
\<close>

theorem apiStatus_fallback:
  "apiStatus (\<lambda>p. if p = dataPath then Inl err else other p) now
     = SendJson \<lparr>fb_overall = ''ok'', fb_updatedAt = now, fb_messages = []\<rparr>
   \<and> apiStatus (\<lambda>p. if p = dataPath then Inr raw else other p) now = SendRaw raw"
  by (simp add: apiStatus_def)

section \<open>Properties of the visibility gate\<close>

lemma js_literals_distinct:
  "js ''yes'' \<noteq> js ''no''" "js ''yes'' \<noteq> []" "js ''no'' \<noteq> []"
  by (simp_all add: js_def)

lemma normalizeDisplay_cases:
  "normalizeDisplay s = js ''yes'' \<or> normalizeDisplay s = js ''no'' \<or> normalizeDisplay s = []"
  by (simp add: normalizeDisplay_def Let_def)

lemma normalizeSolved_cases:
  "normalizeSolved s = js ''yes'' \<or> normalizeSolved s = js ''no''"
  by (simp add: normalizeSolved_def Let_def)

lemma normalizeDisplay_absent: "normalizeDisplay None = []"
  by code_simp

lemma normalizeSolved_absent: "normalizeSolved None = js ''no''"
  by code_simp

lemma emitEntry_included:
  "emitEntry pf ob \<noteq> None \<longleftrightarrow>
     normalizeDisplay (ob (js ''display'')) = js ''yes''
     \<or> (normalizeDisplay (ob (js ''display'')) = [] \<and> normalizeSolved (ob (js ''solved'')) = js ''no'')"
  using normalizeDisplay_cases[of "ob (js ''display'')"]
  by (auto simp: emitEntry_def Let_def js_literals_distinct)

text \<open>
  C2, as the code has it. A parsed block is included iff its display field
  normalizes to "yes", or its display field normalizes to neither "yes" nor "no" (it
  is absent, empty or unrecognized) and its solved field normalizes to "no". In
  particular, with no display field, solved "no" includes the block and solved "yes"
  excludes it, and display "no" excludes it whatever the solved field says.
\<close>

theorem visibility_rule:
  "trim innerRaw \<noteq> [] \<Longrightarrow>
   (let ob = obj (parseLines innerRaw);
        d = normalizeDisplay (ob (js ''display''));
        s = normalizeSolved (ob (js ''solved''))
    in (processBlock pf innerRaw \<noteq> None \<longleftrightarrow>
          d = js ''yes'' \<or> (d \<noteq> js ''yes'' \<and> d \<noteq> js ''no'' \<and> s = js ''no''))
       \<and> (ob (js ''display'') = None \<and> s = js ''no'' \<longrightarrow> processBlock pf innerRaw \<noteq> None)
       \<and> (ob (js ''display'') = None \<and> s = js ''yes'' \<longrightarrow> processBlock pf innerRaw = None)
       \<and> (d = js ''no'' \<longrightarrow> processBlock pf innerRaw = None))"
proof -
  let ?ob = "obj (parseLines innerRaw)"
  let ?d = "normalizeDisplay (?ob (js ''display''))"
  let ?s = "normalizeSolved (?ob (js ''solved''))"
  assume "trim innerRaw \<noteq> []"
  then have p: "processBlock pf innerRaw = emitEntry pf ?ob"
    by (simp add: processBlock_def)
  have inc: "(emitEntry pf ?ob \<noteq> None) = (?d = js ''yes'' \<or> (?d = [] \<and> ?s = js ''no''))"
    by (rule emitEntry_included)
  have dc: "?d = js ''yes'' \<or> ?d = js ''no'' \<or> ?d = []"
    by (rule normalizeDisplay_cases)
  have sc: "?s = js ''yes'' \<or> ?s = js ''no''"
    by (rule normalizeSolved_cases)
  have ab: "?ob (js ''display'') = None \<longrightarrow> ?d = []"
    by (simp add: normalizeDisplay_absent)
  show ?thesis
    unfolding Let_def p using inc dc sc ab js_literals_distinct by metis
qed

theorem visibility_rule_witness:
  "processBlock latinPlatform (js ''solved: no'') \<noteq> None \<and> processBlock latinPlatform (js ''solved: yes'') = None
   \<and> processBlock latinPlatform (js ''display: no'' @ [10] @ js ''solved: no'') = None
   \<and> processBlock latinPlatform (js ''display: on'' @ [10] @ js ''solved: yes'') \<noteq> None"
proof -
  have a: "trim (js ''solved: no'') \<noteq> []" by code_simp
  have a': "obj (parseLines (js ''solved: no'')) (js ''display'') = None \<and>
     normalizeSolved (obj (parseLines (js ''solved: no'')) (js ''solved'')) = js ''no''" by code_simp
  have b: "trim (js ''solved: yes'') \<noteq> []" by code_simp
  have b': "obj (parseLines (js ''solved: yes'')) (js ''display'') = None \<and>
     normalizeSolved (obj (parseLines (js ''solved: yes'')) (js ''solved'')) = js ''yes''" by code_simp
  have c: "trim (js ''display: no'' @ [10] @ js ''solved: no'') \<noteq> []" by code_simp
  have c': "normalizeDisplay (obj (parseLines (js ''display: no'' @ [10] @ js ''solved: no'')) (js ''display'')) = js ''no''" by code_simp
  have d: "trim (js ''display: on'' @ [10] @ js ''solved: yes'') \<noteq> []" by code_simp
  have d': "normalizeDisplay (obj (parseLines (js ''display: on'' @ [10] @ js ''solved: yes'')) (js ''display'')) = js ''yes''" by code_simp
  from visibility_rule[OF a, of latinPlatform] a' have 1: "processBlock latinPlatform (js ''solved: no'') \<noteq> None"
    unfolding Let_def by blast
  from visibility_rule[OF b, of latinPlatform] b' have 2: "processBlock latinPlatform (js ''solved: yes'') = None"
    unfolding Let_def by blast
  from visibility_rule[OF c, of latinPlatform] c' have 3: "processBlock latinPlatform (js ''display: no'' @ [10] @ js ''solved: no'') = None"
    unfolding Let_def by blast
  from visibility_rule[OF d, of latinPlatform] d' have 4: "processBlock latinPlatform (js ''display: on'' @ [10] @ js ''solved: yes'') \<noteq> None"
    unfolding Let_def by blast
  from 1 2 3 4 show ?thesis by blast
qed

text \<open>
  C2 as stated fails on a display field that is present and unrecognized: the block
  \<open>display: maybe\<close> is included, though its display field is neither absent
  nor normalized to "yes".
\<close>

theorem visibility_rule_counterexample:
  "extractAllSystemEntries latinPlatform (js ''[system]display: maybe[/system]'')
     = [\<lparr>name = js ''System message'', status = js ''ok'', display = js ''yes'',
         domains = [], message = []\<rparr>]
   \<and> obj (parseLines (js ''display: maybe'')) (js ''display'') = Some (js ''maybe'')
   \<and> processBlock latinPlatform (js ''display: maybe'') \<noteq> None
   \<and> \<not> specVisible (obj (parseLines (js ''display: maybe'')))"
  by code_simp


section \<open>Precedence of display over solved\<close>






section \<open>Properties of the content normalizer\<close>

lemma decodeEntities_clean: "\<not> hasEntity t \<Longrightarrow> decodeEntities t = t"
  by (induction t) (auto split: option.splits)

lemma unescapeBracket_clean: "\<not> hasEscaped b t \<Longrightarrow> unescapeBracket b t = t"
  by (induction b t rule: unescapeBracket.induct) auto

lemma entityAt_length:
  assumes "entityAt s = Some (e, r)"
  shows "4 \<le> length e \<and> length e \<le> length s"
proof -
  from assms have m: "(e, r) \<in> set entityTable" and sw: "startsWith s e"
    by (auto simp: entityAt_def find_Some_iff in_set_conv_nth)
  from m have "4 \<le> length e" by (auto simp: entityTable_def js_def)
  moreover from sw have "length (take (length e) s) = length e"
    by (simp add: startsWith_def)
  then have "length e \<le> length s" by simp
  ultimately show ?thesis by simp
qed

lemma decodeEntities_length: "length (decodeEntities t) \<le> length t"
proof (induction t rule: decodeEntities.induct)
  case 1
  then show ?case by simp
next
  case (2 c cs)
  show ?case
  proof (cases "entityAt (c # cs)")
    case None
    with 2(1) show ?thesis by simp
  next
    case (Some a)
    obtain e r where a: "a = (e, r)" by (cases a)
    from 2(2)[OF Some a[symmetric]] Some a show ?thesis by simp
  qed
qed

lemma decodeEntities_shrinks: "hasEntity t \<Longrightarrow> length (decodeEntities t) < length t"
proof (induction t)
  case Nil
  then show ?case by simp
next
  case (Cons c cs)
  show ?case
  proof (cases "entityAt (c # cs)")
    case None
    with Cons show ?thesis by simp
  next
    case (Some a)
    obtain e r where a: "a = (e, r)" by (cases a)
    from entityAt_length[of "c # cs" e r] Some a
    have l: "4 \<le> length e" "length e \<le> Suc (length cs)" by auto
    have "length (decodeEntities (drop (length e - 1) cs)) \<le> length cs - (length e - 1)"
      using decodeEntities_length[of "drop (length e - 1) cs"] by simp
    with l Some a show ?thesis by simp
  qed
qed

lemma unescapeBracket_length: "length (unescapeBracket b t) \<le> length t"
  by (induction b t rule: unescapeBracket.induct) auto

lemma unescapeBracket_shrinks: "hasEscaped b t \<Longrightarrow> length (unescapeBracket b t) < length t"
proof (induction b t rule: unescapeBracket.induct)
  case (1 b c d cs)
  then show ?case
    using unescapeBracket_length[of b cs] by (auto simp: less_Suc_eq_le le_SucI)
qed auto

lemma prepareSystemSource_no_zero_width:
  "c \<in> set (prepareSystemSource s) \<Longrightarrow> \<not> isZeroWidth c"
  by (simp add: prepareSystemSource_def)

lemma prepareSystemSource_length_decode:
  "length (prepareSystemSource t) \<le> length (decodeEntities t)"
proof -
  have "length (prepareSystemSource t) \<le> length (unescapeBracket 93 (unescapeBracket 91 (decodeEntities t)))"
    by (simp add: prepareSystemSource_def)
  also have "\<dots> \<le> length (unescapeBracket 91 (decodeEntities t))"
    by (rule unescapeBracket_length)
  also have "\<dots> \<le> length (decodeEntities t)"
    by (rule unescapeBracket_length)
  finally show ?thesis .
qed

lemma prepareSystemSource_fixed:
  assumes "\<not> hasEntity t" "\<not> hasEscaped 91 t" "\<not> hasEscaped 93 t"
    and "\<forall>c\<in>set t. \<not> isZeroWidth c"
  shows "prepareSystemSource t = t"
  using assms
  by (simp add: prepareSystemSource_def decodeEntities_clean unescapeBracket_clean filter_id_conv)

lemma prepareSystemSource_shrinks:
  assumes "hasEntity t \<or> hasEscaped 91 t \<or> hasEscaped 93 t"
  shows "length (prepareSystemSource t) < length t"
proof (cases "hasEntity t")
  case True
  from decodeEntities_shrinks[OF True] prepareSystemSource_length_decode[of t]
  show ?thesis by simp
next
  case False
  then have d: "decodeEntities t = t" by (rule decodeEntities_clean)
  show ?thesis
  proof (cases "hasEscaped 91 t")
    case True
    have "length (prepareSystemSource t) \<le> length (unescapeBracket 93 (unescapeBracket 91 t))"
      by (simp add: prepareSystemSource_def d)
    also have "\<dots> \<le> length (unescapeBracket 91 t)" by (rule unescapeBracket_length)
    also have "\<dots> < length t" using True by (rule unescapeBracket_shrinks)
    finally show ?thesis .
  next
    case no: False
    with False assms have e: "hasEscaped 93 t" by simp
    have "length (prepareSystemSource t) \<le> length (unescapeBracket 93 t)"
      by (simp add: prepareSystemSource_def d unescapeBracket_clean[OF no])
    also have "\<dots> < length t" using e by (rule unescapeBracket_shrinks)
    finally show ?thesis .
  qed
qed

text \<open>
  C3, as the code has it. The normalizer is one pass: applying it to its own
  output changes nothing exactly when that output holds none of the five entities and
  no backslash-escaped bracket (its output never holds a zero-width character).
\<close>

theorem prepareSystemSource_idempotent_iff:
  "prepareSystemSource (prepareSystemSource s) = prepareSystemSource s \<longleftrightarrow>
     \<not> hasEntity (prepareSystemSource s) \<and> \<not> hasEscaped 91 (prepareSystemSource s)
     \<and> \<not> hasEscaped 93 (prepareSystemSource s)"
proof
  assume eq: "prepareSystemSource (prepareSystemSource s) = prepareSystemSource s"
  show "\<not> hasEntity (prepareSystemSource s) \<and> \<not> hasEscaped 91 (prepareSystemSource s)
     \<and> \<not> hasEscaped 93 (prepareSystemSource s)"
  proof (rule ccontr)
    assume "\<not> ?thesis"
    then have "length (prepareSystemSource (prepareSystemSource s)) < length (prepareSystemSource s)"
      using prepareSystemSource_shrinks[of "prepareSystemSource s"] by blast
    with eq show False by simp
  qed
next
  assume "\<not> hasEntity (prepareSystemSource s) \<and> \<not> hasEscaped 91 (prepareSystemSource s)
     \<and> \<not> hasEscaped 93 (prepareSystemSource s)"
  then show "prepareSystemSource (prepareSystemSource s) = prepareSystemSource s"
    using prepareSystemSource_no_zero_width[of _ s]
    by (intro prepareSystemSource_fixed) auto
qed

theorem prepareSystemSource_idempotent_iff_witness:
  "prepareSystemSource (prepareSystemSource ([92] @ js ''[system] a &amp; b'' @ [8203] @ js ''&lt;''))
     = prepareSystemSource ([92] @ js ''[system] a &amp; b'' @ [8203] @ js ''&lt;'')
   \<and> prepareSystemSource ([92] @ js ''[system] a &amp; b'' @ [8203] @ js ''&lt;'') = js ''[system] a & b<''"
proof -
  let ?s = "[92] @ js ''[system] a &amp; b'' @ [8203] @ js ''&lt;''"
  have v: "prepareSystemSource ?s = js ''[system] a & b<''" by code_simp
  have c: "\<not> hasEntity (js ''[system] a & b<'') \<and> \<not> hasEscaped 91 (js ''[system] a & b<'')
     \<and> \<not> hasEscaped 93 (js ''[system] a & b<'')" by code_simp
  have "prepareSystemSource (prepareSystemSource ?s) = prepareSystemSource ?s"
    using prepareSystemSource_idempotent_iff[of ?s] c unfolding v by simp
  with v show ?thesis by simp
qed

text \<open>
  C3 as stated fails: the first pass turns \<open>&amp;lt;\<close> into \<open>&lt;\<close>, and
  a second pass turns that into \<open><\<close>.
\<close>

theorem prepareSystemSource_idempotent_counterexample:
  "prepareSystemSource (js ''&amp;lt;'') = js ''&lt;''
   \<and> prepareSystemSource (prepareSystemSource (js ''&amp;lt;'')) = js ''<''
   \<and> prepareSystemSource (prepareSystemSource (js ''&amp;lt;'')) \<noteq> prepareSystemSource (js ''&amp;lt;'')"
  by code_simp


section \<open>Properties of the aggregator\<close>

lemma example_run:
  "map (\<lambda>m. (name m, status m, updated m))
       (messages (harvestSystemMessagesFromDocs latinPlatform 0 (js ''now'') exampleRemote))
     = [(js ''p2'', js ''error'', Some 1000), (js ''p3'', js ''warning'', Some 2000),
        (js ''p5'', js ''ok'', Some 3000), (js ''p4'', js ''ok'', Some 2500), (js ''p1'', js ''ok'', None)]"
  by code_simp

lemma example_run_recent:
  "map (\<lambda>m. (name m, status m, updated m))
       (messages (harvestSystemMessagesFromDocs latinPlatform 1500 (js ''now'') exampleRemote))
     = [(js ''p3'', js ''warning'', Some 2000), (js ''p5'', js ''ok'', Some 3000),
        (js ''p4'', js ''ok'', Some 2500)]"
  by code_simp

lemma overallOf_iff:
  "overallOf ms =
     (if \<exists>m\<in>set ms. status m = js ''error'' then js ''error''
      else if \<exists>m\<in>set ms. status m = js ''warning'' then js ''warn''
      else js ''ok'')"
  by (simp add: overallOf_def list_ex_iff)

lemma overall_literals:
  "js ''error'' \<noteq> js ''warning''" "js ''warn'' \<noteq> js ''warning''" "js ''ok'' \<noteq> js ''warning''"
  "js ''error'' \<noteq> js ''ok''" "js ''warning'' \<noteq> js ''ok''"
  by (simp_all add: js_def)

text \<open>
  C7. The snapshot's overall status is "error" if some message of the snapshot has
  status "error", else "warn" if some message has status "warning", else "ok"; it is
  never "warning".
\<close>

theorem overall_severity:
  "overall (harvestSystemMessagesFromDocs pf cutoffMs now w) =
     (if \<exists>m\<in>set (messages (harvestSystemMessagesFromDocs pf cutoffMs now w)). status m = js ''error''
      then js ''error''
      else if \<exists>m\<in>set (messages (harvestSystemMessagesFromDocs pf cutoffMs now w)). status m = js ''warning''
      then js ''warn''
      else js ''ok'')
   \<and> overall (harvestSystemMessagesFromDocs pf cutoffMs now w) \<noteq> js ''warning''"
  by (simp add: harvestSystemMessagesFromDocs_def Let_def overallOf_iff overall_literals)


lemma map_status_of_triples:
  "map status ms = map (fst \<circ> snd) (map (\<lambda>m. (name m, status m, updated m)) ms)"
  by simp

theorem overall_severity_witness:
  "overall (harvestSystemMessagesFromDocs latinPlatform 0 (js ''now'') exampleRemote) = js ''error''
   \<and> overall (harvestSystemMessagesFromDocs latinPlatform 1500 (js ''now'') exampleRemote) = js ''warn''
   \<and> overall (harvestSystemMessagesFromDocs latinPlatform 0 (js ''now'') (exampleRemote\<lparr>listAllDocs := []\<rparr>))
       = js ''ok''"
proof -
  let ?h1 = "harvestSystemMessagesFromDocs latinPlatform 0 (js ''now'') exampleRemote"
  let ?h2 = "harvestSystemMessagesFromDocs latinPlatform 1500 (js ''now'') exampleRemote"
  let ?h3 = "harvestSystemMessagesFromDocs latinPlatform 0 (js ''now'') (exampleRemote\<lparr>listAllDocs := []\<rparr>)"
  have s1: "map status (messages ?h1) = [js ''error'', js ''warning'', js ''ok'', js ''ok'', js ''ok'']"
    unfolding map_status_of_triples example_run by simp
  have s2: "map status (messages ?h2) = [js ''warning'', js ''ok'', js ''ok'']"
    unfolding map_status_of_triples example_run_recent by simp
  have s3: "map status (messages ?h3) = []"
    by code_simp
  have e: "(\<exists>m\<in>set ms. status m = x) = (x \<in> set (map status ms))" for x and ms :: "harvested list"
    by auto
  have 1: "overall ?h1 = js ''error''"
    using overall_severity[of latinPlatform 0 "js ''now''" exampleRemote] unfolding e s1 by simp
  have 2: "overall ?h2 = js ''warn''"
    using overall_severity[of latinPlatform 1500 "js ''now''" exampleRemote]
    unfolding e s2 by (simp add: overall_literals)
  have 3: "overall ?h3 = js ''ok''"
    using overall_severity[of latinPlatform 0 "js ''now''" "exampleRemote\<lparr>listAllDocs := []\<rparr>"]
    unfolding e s3 by simp
  from 1 2 3 show ?thesis by simp
qed

lemma precedes_iff:
  "precedes a b \<longleftrightarrow> sev (status a) < sev (status b)
      \<or> (sev (status a) = sev (status b) \<and> timeKey b \<le> timeKey a)"
  by (auto simp: precedes_def compareMessages_def Let_def)

lemma precedes_total: "\<not> precedes a b \<Longrightarrow> precedes b a"
  by (auto simp: precedes_iff)

lemma precedes_trans: "precedes a b \<Longrightarrow> precedes b c \<Longrightarrow> precedes a c"
  by (auto simp: precedes_iff)

lemma set_insertMessage: "set (insertMessage x ys) = insert x (set ys)"
  by (induction ys) auto

lemma sorted_insertMessage:
  "sorted_wrt precedes ys \<Longrightarrow> sorted_wrt precedes (insertMessage x ys)"
proof (induction ys)
  case Nil
  then show ?case by simp
next
  case (Cons y ys)
  show ?case
  proof (cases "compareMessages x y \<le> 0")
    case True
    then have xy: "precedes x y" by (simp add: precedes_def)
    with Cons.prems have "\<forall>z\<in>set ys. precedes x z"
      by (auto intro: precedes_trans)
    with True xy Cons.prems show ?thesis by simp
  next
    case False
    then have "precedes y x" using precedes_total by (simp add: precedes_def)
    with False Cons show ?thesis by (auto simp: set_insertMessage)
  qed
qed

lemma sorted_sortMessages: "sorted_wrt precedes (sortMessages ms)"
  unfolding sortMessages_def by (induction ms) (auto intro: sorted_insertMessage)

lemma set_sortMessages: "set (sortMessages ms) = set ms"
  unfolding sortMessages_def by (induction ms) (auto simp: set_insertMessage)

lemma mset_insertMessage: "mset (insertMessage x ys) = add_mset x (mset ys)"
  by (induction ys) auto

lemma mset_sortMessages: "mset (sortMessages ms) = mset ms"
  unfolding sortMessages_def by (induction ms) (auto simp: mset_insertMessage)

lemma normalizeStatus_range:
  "normalizeStatus s = js ''error'' \<or> normalizeStatus s = js ''warning'' \<or> normalizeStatus s = js ''ok''"
  by (auto simp: normalizeStatus_def Let_def)

lemma emitEntry_status:
  "emitEntry pf ob = Some e \<Longrightarrow> status e = normalizeStatus (ob (js ''status''))"
  by (auto simp: emitEntry_def Let_def split: if_splits)

lemma extract_status:
  assumes "e \<in> set (extractAllSystemEntries pf body)"
  shows "status e = js ''error'' \<or> status e = js ''warning'' \<or> status e = js ''ok''"
proof -
  from assms obtain b where "processBlock pf b = Some e"
    by (auto simp: extractAllSystemEntries_def List.map_filter_def)
  then obtain ob where "emitEntry pf ob = Some e"
    by (auto simp: processBlock_def split: if_splits)
  then show ?thesis using emitEntry_status normalizeStatus_range by metis
qed

lemma enrich_fields:
  "status (enrich d p f) = status f" "name (enrich d p f) = name f"
  "message (enrich d p f) = message f" "updated (enrich d p f) = updatedOf p"
  by (simp_all add: enrich_def entry.defs harvested.defs)

lemma collectMessages_elem:
  assumes "m \<in> set (collectMessages pf c w)"
  shows "\<exists>d\<in>set (listAllDocs w). \<exists>p\<in>set (listPagesMeta w (doc_id d)).
           \<exists>f\<in>set (extractAllSystemEntries pf (fetchPageBody w (doc_id d) (page_id p))).
             m = enrich d p f"
  using assms
  by (auto simp: collectMessages_def pageMessages_def recentPages_def Let_def split: if_splits)

lemma harvest_set:
  "set (messages (harvestSystemMessagesFromDocs pf c n w)) = set (collectMessages pf c w)"
  by (simp add: harvestSystemMessagesFromDocs_def Let_def set_sortMessages)

lemma sev_values:
  "sev (js ''error'') = 0" "sev (js ''warning'') = 1" "sev (js ''ok'') = 2"
  by (simp_all add: sev_def js_def)

lemma enrich_source:
  "src_doc_id (enrich d p f) = doc_id d" "src_page_id (enrich d p f) = page_id p"
  by (simp_all add: enrich_def entry.defs harvested.defs)

text \<open>
  C6, as the code has it. Every message of the snapshot has status error, warning or
  ok. No error stands after a warning or an ok message, and no warning after an ok
  message. Among messages of one status none stands after one with a smaller
  timestamp, where a message without timestamp counts as stamped 0, the epoch: it
  stands after every message of its status with a positive timestamp and before every
  one with a negative timestamp. The list is a rearrangement of the messages
  collected, and the timestamp of a message is the \<open>date_updated\<close> of a page of
  a listed document, none when that is missing or 0.
\<close>

theorem messages_sorted:
  "(let out = messages (harvestSystemMessagesFromDocs pf c n w) in
    (\<forall>m\<in>set out. status m = js ''error'' \<or> status m = js ''warning'' \<or> status m = js ''ok'')
    \<and> (\<forall>j < length out. \<forall>i < j.
          (status (out ! j) = js ''error'' \<longrightarrow> status (out ! i) = js ''error'')
          \<and> (status (out ! j) = js ''warning'' \<longrightarrow> status (out ! i) \<noteq> js ''ok''))
    \<and> (\<forall>j < length out. \<forall>i < j. status (out ! i) = status (out ! j) \<longrightarrow>
          (case updated (out ! j) of None \<Rightarrow> 0 | Some t \<Rightarrow> t)
            \<le> (case updated (out ! i) of None \<Rightarrow> 0 | Some t \<Rightarrow> t))
    \<and> (\<forall>i < length out. \<forall>j < length out. \<forall>t.
          status (out ! i) = status (out ! j) \<and> updated (out ! i) = None
          \<and> updated (out ! j) = Some t \<longrightarrow> (0 < t \<longrightarrow> j < i) \<and> (t < 0 \<longrightarrow> i < j))
    \<and> mset out = mset (collectMessages pf c w)
    \<and> (\<forall>m\<in>set out. \<exists>d\<in>set (listAllDocs w). \<exists>p\<in>set (listPagesMeta w (doc_id d)).
          src_doc_id m = doc_id d \<and> src_page_id m = page_id p
          \<and> updated m = (case date_updated p of
                            None \<Rightarrow> None
                          | Some t \<Rightarrow> if t = 0 then None else Some t)))"
proof -
  define out where "out = messages (harvestSystemMessagesFromDocs pf c n w)"
  have srt: "sorted_wrt precedes out"
    by (simp add: out_def harvestSystemMessagesFromDocs_def Let_def sorted_sortMessages)
  have ord: "precedes (out ! i) (out ! j)" if "i < j" "j < length out" for i j
    using srt that by (simp add: sorted_wrt_iff_nth_less)
  have src: "\<exists>d\<in>set (listAllDocs w). \<exists>p\<in>set (listPagesMeta w (doc_id d)).
           \<exists>f\<in>set (extractAllSystemEntries pf (fetchPageBody w (doc_id d) (page_id p))).
             m = enrich d p f" if "m \<in> set out" for m
    using that collectMessages_elem[of m pf c w] harvest_set[of pf c n w] by (simp add: out_def)
  have st: "status m = js ''error'' \<or> status m = js ''warning'' \<or> status m = js ''ok''"
    if "m \<in> set out" for m
  proof -
    from src[OF that] obtain d p f where
      f: "f \<in> set (extractAllSystemEntries pf (fetchPageBody w (doc_id d) (page_id p)))"
      and m: "m = enrich d p f"
      by blast
    from extract_status[OF f] m show ?thesis by (simp add: enrich_fields)
  qed
  have A: "\<forall>m\<in>set out. status m = js ''error'' \<or> status m = js ''warning'' \<or> status m = js ''ok''"
    using st by blast
  have B: "\<forall>j < length out. \<forall>i < j.
          (status (out ! j) = js ''error'' \<longrightarrow> status (out ! i) = js ''error'')
          \<and> (status (out ! j) = js ''warning'' \<longrightarrow> status (out ! i) \<noteq> js ''ok'')"
  proof (intro allI impI)
    fix j i assume j: "j < length out" and i: "i < j"
    from ord[OF i j] have le: "sev (status (out ! i)) \<le> sev (status (out ! j))"
      by (auto simp: precedes_iff)
    from i j have "out ! i \<in> set out" by simp
    from st[OF this] le
    show "(status (out ! j) = js ''error'' \<longrightarrow> status (out ! i) = js ''error'')
          \<and> (status (out ! j) = js ''warning'' \<longrightarrow> status (out ! i) \<noteq> js ''ok'')"
      by (auto simp: sev_values overall_literals overall_literals[symmetric])
  qed
  have C: "\<forall>j < length out. \<forall>i < j. status (out ! i) = status (out ! j) \<longrightarrow>
          (case updated (out ! j) of None \<Rightarrow> 0 | Some t \<Rightarrow> t)
            \<le> (case updated (out ! i) of None \<Rightarrow> 0 | Some t \<Rightarrow> t)"
  proof (intro allI impI)
    fix j i assume j: "j < length out" and i: "i < j"
      and eq: "status (out ! i) = status (out ! j)"
    from ord[OF i j] eq show "(case updated (out ! j) of None \<Rightarrow> 0 | Some t \<Rightarrow> t)
            \<le> (case updated (out ! i) of None \<Rightarrow> 0 | Some t \<Rightarrow> t)"
      by (simp add: precedes_iff timeKey_def)
  qed
  have D: "\<forall>i < length out. \<forall>j < length out. \<forall>t.
          status (out ! i) = status (out ! j) \<and> updated (out ! i) = None
          \<and> updated (out ! j) = Some t \<longrightarrow> (0 < t \<longrightarrow> j < i) \<and> (t < 0 \<longrightarrow> i < j)"
  proof (intro allI impI)
    fix i j t
    assume i: "i < length out" and j: "j < length out"
      and h: "status (out ! i) = status (out ! j) \<and> updated (out ! i) = None
          \<and> updated (out ! j) = Some t"
    from h have ne: "i \<noteq> j" by auto
    have 1: "j < i" if "0 < t"
    proof (rule ccontr)
      assume "\<not> j < i"
      with ne have "i < j" by simp
      with C j h have "t \<le> 0" by fastforce
      with that show False by simp
    qed
    have 2: "i < j" if "t < 0"
    proof (rule ccontr)
      assume "\<not> i < j"
      with ne have "j < i" by simp
      with C i h have "0 \<le> t" by fastforce
      with that show False by simp
    qed
    from 1 2 show "(0 < t \<longrightarrow> j < i) \<and> (t < 0 \<longrightarrow> i < j)" by blast
  qed
  have E: "mset out = mset (collectMessages pf c w)"
    by (simp add: out_def harvestSystemMessagesFromDocs_def Let_def mset_sortMessages)
  have F: "\<forall>m\<in>set out. \<exists>d\<in>set (listAllDocs w). \<exists>p\<in>set (listPagesMeta w (doc_id d)).
          src_doc_id m = doc_id d \<and> src_page_id m = page_id p
          \<and> updated m = (case date_updated p of
                            None \<Rightarrow> None
                          | Some t \<Rightarrow> if t = 0 then None else Some t)"
  proof
    fix m assume "m \<in> set out"
    from src[OF this] obtain d p f where
      d: "d \<in> set (listAllDocs w)" and p: "p \<in> set (listPagesMeta w (doc_id d))"
      and m: "m = enrich d p f"
      by blast
    have "src_doc_id m = doc_id d \<and> src_page_id m = page_id p
          \<and> updated m = (case date_updated p of
                            None \<Rightarrow> None
                          | Some t \<Rightarrow> if t = 0 then None else Some t)"
      unfolding m by (simp add: enrich_source enrich_fields updatedOf_def)
    with d p show "\<exists>d\<in>set (listAllDocs w). \<exists>p\<in>set (listPagesMeta w (doc_id d)).
          src_doc_id m = doc_id d \<and> src_page_id m = page_id p
          \<and> updated m = (case date_updated p of
                            None \<Rightarrow> None
                          | Some t \<Rightarrow> if t = 0 then None else Some t)"
      by blast
  qed
  from A B C D E F show ?thesis unfolding Let_def out_def by blast
qed

theorem messages_sorted_witness:
  "map (\<lambda>m. (name m, status m, updated m))
       (messages (harvestSystemMessagesFromDocs latinPlatform 0 (js ''now'') exampleRemote))
     = [(js ''p2'', js ''error'', Some 1000), (js ''p3'', js ''warning'', Some 2000),
        (js ''p5'', js ''ok'', Some 3000), (js ''p4'', js ''ok'', Some 2500), (js ''p1'', js ''ok'', None)]
   \<and> status (messages (harvestSystemMessagesFromDocs latinPlatform 0 (js ''now'') exampleRemote) ! 0)
       \<noteq> js ''ok''
   \<and> (case updated (messages (harvestSystemMessagesFromDocs latinPlatform 0 (js ''now'') exampleRemote) ! 3)
         of None \<Rightarrow> 0 | Some t \<Rightarrow> t)
       \<le> (case updated (messages (harvestSystemMessagesFromDocs latinPlatform 0 (js ''now'') exampleRemote) ! 2)
            of None \<Rightarrow> 0 | Some t \<Rightarrow> t)
   \<and> size (mset (collectMessages latinPlatform 0 exampleRemote)) = 5"
proof -
  let ?out = "messages (harvestSystemMessagesFromDocs latinPlatform 0 (js ''now'') exampleRemote)"
  have tr: "map (\<lambda>m. (name m, status m, updated m)) ?out
     = [(js ''p2'', js ''error'', Some 1000), (js ''p3'', js ''warning'', Some 2000),
        (js ''p5'', js ''ok'', Some 3000), (js ''p4'', js ''ok'', Some 2500), (js ''p1'', js ''ok'', None)]"
    by (rule example_run)
  have "length (map (\<lambda>m. (name m, status m, updated m)) ?out) = 5"
    unfolding tr by simp
  then have len: "length ?out = 5" by simp
  have nth: "(name (?out ! k), status (?out ! k), updated (?out ! k))
      = map (\<lambda>m. (name m, status m, updated m)) ?out ! k" if "k < 5" for k
    using that len by simp
  have n1: "status (?out ! 1) = js ''warning''"
    and n2: "status (?out ! 2) = js ''ok''"
    and n3: "status (?out ! 3) = js ''ok'' \<and> updated (?out ! 3) = Some 2500"
    and n4: "status (?out ! 4) = js ''ok'' \<and> updated (?out ! 4) = None"
    using nth[of 1] nth[of 2] nth[of 3] nth[of 4] unfolding tr by simp_all
  note sorted_inst = messages_sorted[of latinPlatform 0 "js ''now''" exampleRemote, unfolded Let_def]
  note ranked = sorted_inst[THEN conjunct2, THEN conjunct1, rule_format]
  note recent = sorted_inst[THEN conjunct2, THEN conjunct2, THEN conjunct1, rule_format]
  note perm = sorted_inst[THEN conjunct2, THEN conjunct2, THEN conjunct2, THEN conjunct2, THEN conjunct1]
  from ranked[of 1 0] len n1 have a: "status (?out ! 0) \<noteq> js ''ok''" by simp
  from recent[of 3 2] len n2 n3
  have b: "(case updated (?out ! 3) of None \<Rightarrow> 0 | Some t \<Rightarrow> t)
             \<le> (case updated (?out ! 2) of None \<Rightarrow> 0 | Some t \<Rightarrow> t)" by simp
  from perm len have d: "size (mset (collectMessages latinPlatform 0 exampleRemote)) = 5"
    by (metis size_mset)
  from a b d show ?thesis unfolding tr by simp
qed

text \<open>
  C6 as stated fails for a page stamped before the epoch: of two ok messages, the
  one without timestamp stands first, before the one stamped -5.
\<close>

theorem messages_sorted_counterexample:
  "map (\<lambda>m. (name m, status m, updated m))
       (messages (harvestSystemMessagesFromDocs latinPlatform 0 (js ''now'') earlyRemote))
     = [(js ''q2'', js ''ok'', None), (js ''q1'', js ''ok'', Some (- 5))]"
  by code_simp

section \<open>Properties of the message field\<close>






section \<open>Properties of the audience list\<close>









lemma uniqueFrom_set: "set (uniqueFrom seen xs) = set xs - set seen"
  by (induction seen xs rule: uniqueFrom.induct) auto

lemma uniqueFrom_distinct: "distinct (uniqueFrom seen xs)"
  by (induction seen xs rule: uniqueFrom.induct) (auto simp: uniqueFrom_set)

























section \<open>Properties of deduplication\<close>











end
